theory Spec2Isabelle
  imports Main "HOL-Library.Sublist"
begin

section \<open>Python values and errors\<close>

text \<open>
  The validators of \<^verbatim>\<open>server/models.py\<close> are SQLAlchemy \<^verbatim>\<open>@validates\<close> hooks: each one
  receives whatever Python object is assigned to the attribute. The values modelled are
  \<^verbatim>\<open>None\<close>, booleans, integers and strings. A string is a list of characters; a
  character stands for one code point below 256, so \<open>length\<close> is Python's \<^verbatim>\<open>len\<close>.
  Strings with code points from 256 on are outside the model.
\<close>

datatype pyval = PNone | PBool bool | PInt int | PStr string

text \<open>
  Every \<^verbatim>\<open>raise\<close> of the module is a \<^verbatim>\<open>ValueError\<close> with a message. \<^verbatim>\<open>TypeError\<close> is what
  the interpreter raises for \<^verbatim>\<open>len(x)\<close> and \<^verbatim>\<open>phrase in x\<close> on a value that has no length
  and is not a container; its message is left out.
\<close>

datatype py_error = ValueError string | TypeError

subsection \<open>Truth value and \<^verbatim>\<open>str\<close>\<close>

text \<open>The truth value of an object, as \<^verbatim>\<open>not value\<close> tests it.\<close>

fun truthy :: "pyval \<Rightarrow> bool" where
  "truthy PNone = False"
| "truthy (PBool b) = b"
| "truthy (PInt i) = (i \<noteq> 0)"
| "truthy (PStr s) = (s \<noteq> [])"

text \<open>The decimal digits of a natural number, most significant first.\<close>

function str_nat :: "nat \<Rightarrow> string" where
  "str_nat n =
     (if n < 10 then [''0123456789'' ! n]
      else str_nat (n div 10) @ [''0123456789'' ! (n mod 10)])"
  by pat_completeness auto
termination
  by (relation "measure (\<lambda>n. n)") auto

declare str_nat.simps [simp del]

text \<open>\<^verbatim>\<open>str(value)\<close>.\<close>

fun py_str :: "pyval \<Rightarrow> string" where
  "py_str PNone = ''None''"
| "py_str (PBool b) = (if b then ''True'' else ''False'')"
| "py_str (PInt i) = (if i < 0 then CHR ''-'' # str_nat (nat (- i)) else str_nat (nat i))"
| "py_str (PStr s) = s"

subsection \<open>String methods\<close>

text \<open>
  \<^verbatim>\<open>str.isspace\<close> on one character, for the code points below 256: the ASCII controls
  9 to 13 and 28 to 31, the space, NEL (133) and the no-break space (160).
\<close>

definition isspace :: "char \<Rightarrow> bool" where
  "isspace c =
     (let n = (of_char c :: nat)
      in (9 \<le> n \<and> n \<le> 13) \<or> (28 \<le> n \<and> n \<le> 32) \<or> n = 133 \<or> n = 160)"

text \<open>\<^verbatim>\<open>s.strip()\<close>: leading and trailing whitespace removed.\<close>

definition strip :: "string \<Rightarrow> string" where
  "strip s = rev (dropWhile isspace (rev (dropWhile isspace s)))"

text \<open>
  \<^verbatim>\<open>str.isdigit\<close> on one character, for the code points below 256: besides the ASCII
  digits, Python counts the superscript digits two, three (178, 179) and one (185),
  whose Unicode property is Numeric_Type=Digit.
\<close>

definition isdigit_char :: "char \<Rightarrow> bool" where
  "isdigit_char c =
     (let n = (of_char c :: nat)
      in (48 \<le> n \<and> n \<le> 57) \<or> n = 178 \<or> n = 179 \<or> n = 185)"

text \<open>\<^verbatim>\<open>s.isdigit()\<close>: at least one character, and all of them digits.\<close>

definition isdigit :: "string \<Rightarrow> bool" where
  "isdigit s = (s \<noteq> [] \<and> list_all isdigit_char s)"

text \<open>\<^verbatim>\<open>phrase in value\<close> on two strings: \<open>str_contains value phrase\<close>.\<close>

fun str_contains :: "string \<Rightarrow> string \<Rightarrow> bool" where
  "str_contains [] p = (p = [])"
| "str_contains (c # cs) p = (prefix p (c # cs) \<or> str_contains cs p)"

text \<open>\<^verbatim>\<open>sep.join(xs)\<close>.\<close>

fun join :: "string \<Rightarrow> string list \<Rightarrow> string" where
  "join sep [] = []"
| "join sep [x] = x"
| "join sep (x # y # ys) = x @ sep @ join sep (y # ys)"

section \<open>The models\<close>

definition CLICKBAIT_PHRASES :: "string list" where
  "CLICKBAIT_PHRASES = [''Won't Believe'', ''Secret'', ''Top'', ''Guess'']"

subsection \<open>Author\<close>

text \<open>
  A row of the table \<^verbatim>\<open>authors\<close>. A persisted row has an integer primary key; the
  record that a validator runs on has \<^verbatim>\<open>self.id\<close> equal to \<^verbatim>\<open>None\<close> until it is
  persisted, so \<^verbatim>\<open>self.id\<close> is an \<open>int option\<close>. The two timestamps are filled by the
  database and no validator reads them; they are left out.
\<close>

record author =
  author_id :: int
  name :: string
  phone_number :: pyval

text \<open>\<^verbatim>\<open>Author.query.filter(Author.name == normalized).first()\<close> over the persisted rows.\<close>

definition query_first_by_name :: "author list \<Rightarrow> string \<Rightarrow> author option" where
  "query_first_by_name rows normalized = find (\<lambda>a. name a = normalized) rows"

text \<open>
  \<^verbatim>\<open>Author.validate_name(self, key, value)\<close>. The arguments are the persisted rows the
  query reads, \<^verbatim>\<open>self.id\<close>, and \<^verbatim>\<open>value\<close>; \<^verbatim>\<open>key\<close> is not used by the body.
\<close>

definition validate_name :: "author list \<Rightarrow> int option \<Rightarrow> pyval \<Rightarrow> py_error + string" where
  "validate_name rows self_id v =
     (if \<not> truthy v \<or> strip (py_str v) = [] then
        Inl (ValueError ''Author must have a name.'')
      else
        let normalized = strip (py_str v) in
        (case query_first_by_name rows normalized of
           Some existing \<Rightarrow>
             if Some (author_id existing) \<noteq> self_id then
               Inl (ValueError ''Author name must be unique.'')
             else Inr normalized
         | None \<Rightarrow> Inr normalized))"

text \<open>
  \<^verbatim>\<open>Author.validate_phone_number(self, key, value)\<close>. The test
  \<^verbatim>\<open>not isinstance(value, str)\<close> is the last branch of the case distinction: \<^verbatim>\<open>len\<close> and
  \<^verbatim>\<open>isdigit\<close> are reached by strings only.
\<close>

definition validate_phone_number :: "pyval \<Rightarrow> py_error + pyval" where
  "validate_phone_number v =
     (if v = PNone then Inr v
      else
        (case v of
           PStr s \<Rightarrow>
             if length s \<noteq> 10 \<or> \<not> isdigit s then
               Inl (ValueError ''Phone number must be exactly 10 digits.'')
             else Inr v
         | _ \<Rightarrow> Inl (ValueError ''Phone number must be exactly 10 digits.'')))"

subsection \<open>Post\<close>

text \<open>
  \<^verbatim>\<open>Post.validate_title(self, key, value)\<close>. The first test applies \<^verbatim>\<open>str\<close> to the value;
  the second one evaluates \<^verbatim>\<open>phrase in value\<close> on the value itself, which raises
  \<^verbatim>\<open>TypeError\<close> for a boolean or an integer.
\<close>

definition validate_title :: "pyval \<Rightarrow> py_error + string" where
  "validate_title v =
     (if \<not> truthy v \<or> strip (py_str v) = [] then
        Inl (ValueError ''Post must have a title.'')
      else
        (case v of
           PStr s \<Rightarrow>
             if \<not> list_ex (\<lambda>phrase. str_contains s phrase) CLICKBAIT_PHRASES then
               Inl (ValueError
                 (''Title must be clickbait-y and contain one of: ''
                   @ join '', '' CLICKBAIT_PHRASES))
             else Inr (strip s)
         | _ \<Rightarrow> Inl TypeError))"

text \<open>\<^verbatim>\<open>Post.validate_content(self, key, value)\<close>.\<close>

definition validate_content :: "pyval \<Rightarrow> py_error + pyval" where
  "validate_content v =
     (case v of
        PNone \<Rightarrow> Inl (ValueError ''Content must be at least 250 characters long.'')
      | PStr s \<Rightarrow>
          if length s < 250 then
            Inl (ValueError ''Content must be at least 250 characters long.'')
          else Inr v
      | _ \<Rightarrow> Inl TypeError)"

text \<open>\<^verbatim>\<open>Post.validate_summary(self, key, value)\<close>.\<close>

definition validate_summary :: "pyval \<Rightarrow> py_error + pyval" where
  "validate_summary v =
     (case v of
        PNone \<Rightarrow> Inr v
      | PStr s \<Rightarrow>
          if length s > 250 then Inl (ValueError ''Summary must be at most 250 characters.'')
          else Inr v
      | _ \<Rightarrow> Inl TypeError)"

text \<open>\<^verbatim>\<open>Post.validate_category(self, key, value)\<close>.\<close>

definition validate_category :: "pyval \<Rightarrow> py_error + pyval" where
  "validate_category v =
     (let allowed = {PStr ''Fiction'', PStr ''Non-Fiction''}
      in if v \<notin> allowed then Inl (ValueError ''Category must be 'Fiction' or 'Non-Fiction'.'')
         else Inr v)"

section \<open>The storage collaborator\<close>

text \<open>
  The storage collaborator (the session that persists the rows and calls the
  validators) is not part of the module; its operations follow sections 3, 5 and 6 of
  the specification. Operations are sequential: each one reads the rows as the
  previous one left them, and its effect is persisted before the next one begins.
\<close>

text \<open>
  Modelled from the spec: the identifier that the storage assigns to a new row, which
  the module leaves to the database. Here it is one more than the largest identifier
  in use.
\<close>

definition fresh_id :: "author list \<Rightarrow> int" where
  "fresh_id rows = 1 + fold max (map author_id rows) 0"

text \<open>
  Modelled from the spec: the operations of the storage collaborator on authors, which
  the module does not contain. A construction carries the initial name and phone
  number; an assignment changes one field of the row with the given identifier; a
  deletion removes that row.
\<close>

datatype author_op =
    Construct pyval pyval
  | AssignName int pyval
  | AssignPhone int pyval
  | Delete int

text \<open>
  Modelled from the spec: the effect of one operation, which the module does not
  contain. A construction runs the validators of both fields, with \<^verbatim>\<open>self.id\<close> equal to
  \<^verbatim>\<open>None\<close>, and stores the values they return in a new row; an assignment runs the
  validator of its field for the row assigned to and stores the value it returns; a
  deletion runs no validator. An error raised by a validator aborts the operation.
\<close>

fun apply_op :: "author list \<Rightarrow> author_op \<Rightarrow> py_error + author list" where
  "apply_op rows (Construct nm ph) =
     (case validate_name rows None nm of
        Inl e \<Rightarrow> Inl e
      | Inr n \<Rightarrow>
          (case validate_phone_number ph of
             Inl e \<Rightarrow> Inl e
           | Inr p \<Rightarrow>
               Inr (rows @ [\<lparr>author_id = fresh_id rows, name = n, phone_number = p\<rparr>])))"
| "apply_op rows (AssignName i nm) =
     (case validate_name rows (Some i) nm of
        Inl e \<Rightarrow> Inl e
      | Inr n \<Rightarrow> Inr (map (\<lambda>a. if author_id a = i then a\<lparr>name := n\<rparr> else a) rows))"
| "apply_op rows (AssignPhone i ph) =
     (case validate_phone_number ph of
        Inl e \<Rightarrow> Inl e
      | Inr p \<Rightarrow>
          Inr (map (\<lambda>a. if author_id a = i then a\<lparr>phone_number := p\<rparr> else a) rows))"
| "apply_op rows (Delete i) = Inr (filter (\<lambda>a. author_id a \<noteq> i) rows)"

text \<open>
  Modelled from the spec: a run of operations from a given state, which the module does
  not contain. An aborted operation leaves the rows as they were.
\<close>

fun run :: "author list \<Rightarrow> author_op list \<Rightarrow> author list" where
  "run rows [] = rows"
| "run rows (x # xs) =
     (case apply_op rows x of Inl e \<Rightarrow> run rows xs | Inr rows' \<Rightarrow> run rows' xs)"

text \<open>
  The invariant of the persisted rows: identifiers and names are pairwise distinct, and
  every stored name and phone number is a value its validator returns unchanged.
\<close>

definition store_ok :: "author list \<Rightarrow> bool" where
  "store_ok rows \<longleftrightarrow>
     distinct (map author_id rows) \<and> distinct (map name rows) \<and>
     list_all (\<lambda>a. name a \<noteq> [] \<and> strip (name a) = name a
        \<and> validate_phone_number (phone_number a) = Inr (phone_number a)) rows"

section \<open>Facts about the string methods\<close>

lemma str_nat_digit: "n < 10 \<Longrightarrow> str_nat n = [''0123456789'' ! n]"
  by (simp add: str_nat.simps)

lemma str_nat_more:
  "\<not> n < 10 \<Longrightarrow> str_nat n = str_nat (n div 10) @ [''0123456789'' ! (n mod 10)]"
  by (subst str_nat.simps) simp

lemma last_dropWhile_ne: "dropWhile P xs \<noteq> [] \<Longrightarrow> last (dropWhile P xs) = last xs"
  by (induction xs) (auto split: if_splits)

lemma strip_Nil_or_ends: "strip s = [] \<or> (\<not> isspace (hd (strip s)) \<and> \<not> isspace (last (strip s)))"
proof (cases "strip s = []")
  case True then show ?thesis by simp
next
  case False
  define t where "t = dropWhile isspace s"
  define u where "u = dropWhile isspace (rev t)"
  have su: "strip s = rev u" by (simp add: strip_def t_def u_def)
  with False have une: "u \<noteq> []" by simp
  then have tne: "t \<noteq> []" by (auto simp: u_def)
  have "\<not> isspace (hd u)" using une unfolding u_def by (rule hd_dropWhile)
  then have l: "\<not> isspace (last (strip s))" using une by (simp add: su last_rev)
  have "last u = last (rev t)" using une unfolding u_def by (rule last_dropWhile_ne)
  then have "hd (rev u) = hd t" using une tne by (simp add: hd_rev last_rev)
  moreover have "\<not> isspace (hd t)" using tne unfolding t_def by (rule hd_dropWhile)
  ultimately show ?thesis using l by (simp add: su)
qed

lemma strip_fixed:
  assumes "s = [] \<or> (\<not> isspace (hd s) \<and> \<not> isspace (last s))"
  shows "strip s = s"
proof -
  have a: "dropWhile isspace s = s"
    using assms by (auto simp: dropWhile_eq_self_iff)
  have b: "dropWhile isspace (rev s) = rev s"
    using assms by (auto simp: dropWhile_eq_self_iff hd_rev)
  show ?thesis by (simp add: strip_def a b)
qed

lemma strip_idem: "strip (strip s) = strip s"
  by (rule strip_fixed) (rule strip_Nil_or_ends)

lemma strip_fixed_iff: "strip s = s \<longleftrightarrow> s = [] \<or> (\<not> isspace (hd s) \<and> \<not> isspace (last s))"
  using strip_fixed strip_Nil_or_ends[of s] by metis

lemma dropWhile_pad:
  "\<forall>c\<in>set l. P c \<Longrightarrow> xs \<noteq> [] \<Longrightarrow> \<not> P (hd xs) \<Longrightarrow> dropWhile P (l @ xs) = xs"
  by (induction l) (auto simp: dropWhile_eq_self_iff)

lemma strip_all_space:
  assumes "\<forall>c\<in>set xs. isspace c"
  shows "strip xs = []"
proof -
  have "dropWhile isspace xs = []"
    using assms by (simp only: dropWhile_eq_Nil_conv)
  then show ?thesis
    by (simp only: strip_def rev.simps dropWhile.simps)
qed

lemma strip_padded:
  assumes "\<forall>c\<in>set l. isspace c" "\<forall>c\<in>set r. isspace c" "strip s = s"
  shows "strip (l @ s @ r) = s"
proof (cases "s = []")
  case True
  have "\<forall>c\<in>set (l @ s @ r). isspace c"
    using assms(1,2) True by auto
  then have "strip (l @ s @ r) = []"
    by (rule strip_all_space)
  with True show ?thesis by simp
next
  case False
  with assms(3) have e: "\<not> isspace (hd s)" "\<not> isspace (last s)" by (auto simp: strip_fixed_iff)
  have "dropWhile isspace (l @ (s @ r)) = s @ r"
    using assms(1) False e(1) by (intro dropWhile_pad) auto
  moreover have "dropWhile isspace (rev r @ rev s) = rev s"
    using assms(2) False e(2) by (intro dropWhile_pad) (auto simp: hd_rev)
  ultimately show ?thesis by (simp add: strip_def)
qed

lemma str_contains_iff: "str_contains s p \<longleftrightarrow> (\<exists>ps ss. s = ps @ p @ ss)"
proof -
  have "str_contains s p = sublist p s"
    by (induction s) (auto simp: sublist_Cons_right)
  then show ?thesis by (simp add: sublist_def)
qed

lemma strip_Nil_iff: "strip s = [] \<longleftrightarrow> list_all isspace s"
proof
  assume "list_all isspace s"
  then show "strip s = []" by (intro strip_all_space) (simp add: list_all_iff)
next
  assume a: "strip s = []"
  have "dropWhile isspace s = []"
  proof (rule ccontr)
    assume ne: "dropWhile isspace s \<noteq> []"
    then have "\<not> isspace (hd (dropWhile isspace s))" by (rule hd_dropWhile)
    moreover from a have "\<forall>c\<in>set (dropWhile isspace s). isspace c"
      by (simp add: strip_def dropWhile_eq_Nil_conv)
    ultimately show False using ne by (metis hd_in_set)
  qed
  then show "list_all isspace s" by (simp add: dropWhile_eq_Nil_conv list_all_iff)
qed

lemma dropWhile_keeps:
  "p \<noteq> [] \<Longrightarrow> \<not> P (hd p) \<Longrightarrow> \<exists>ps'. dropWhile P (ps @ p @ ss) = ps' @ p @ ss"
proof (induction ps)
  case Nil
  then have "dropWhile P (p @ ss) = p @ ss" by (simp add: dropWhile_eq_self_iff)
  then show ?case by (intro exI[of _ "[]"]) simp
next
  case (Cons a ps)
  show ?case
  proof (cases "P a")
    case True
    with Cons show ?thesis by simp
  next
    case False
    then show ?thesis by (intro exI[of _ "a # ps"]) simp
  qed
qed

lemma strip_keeps:
  assumes "s = ps @ p @ ss" "p \<noteq> []" "\<not> isspace (hd p)" "\<not> isspace (last p)"
  shows "\<exists>ps' ss'. strip s = ps' @ p @ ss'"
proof -
  obtain ps' where a: "dropWhile isspace s = ps' @ p @ ss"
    using dropWhile_keeps[of p isspace ps ss] assms(1,2,3) by blast
  have "rev p \<noteq> []" "\<not> isspace (hd (rev p))"
    using assms(2,4) by (simp_all add: hd_rev)
  then obtain q where "dropWhile isspace (rev ss @ rev p @ rev ps') = q @ rev p @ rev ps'"
    using dropWhile_keeps[of "rev p" isspace "rev ss" "rev ps'"] by blast
  then have "strip s = ps' @ p @ rev q"
    by (simp add: strip_def a)
  then show ?thesis by blast
qed

lemma str_contains_strip:
  "str_contains s p \<Longrightarrow> p \<noteq> [] \<Longrightarrow> \<not> isspace (hd p) \<Longrightarrow> \<not> isspace (last p) \<Longrightarrow>
   str_contains (strip s) p"
  unfolding str_contains_iff using strip_keeps by blast

lemma clickbait_strip:
  "list_ex (str_contains s) CLICKBAIT_PHRASES \<Longrightarrow> list_ex (str_contains (strip s)) CLICKBAIT_PHRASES"
  by (auto simp: CLICKBAIT_PHRASES_def isspace_def intro!: str_contains_strip)

section \<open>Facts about the validators\<close>

lemma join_phrases:
  "''Title must be clickbait-y and contain one of: '' @ join '', '' CLICKBAIT_PHRASES =
   ''Title must be clickbait-y and contain one of: Won't Believe, Secret, Top, Guess''"
  by (simp add: CLICKBAIT_PHRASES_def)

lemma validate_title_str:
  "validate_title (PStr s) =
     (if list_all isspace s then Inl (ValueError ''Post must have a title.'')
      else if (\<exists>ps ss. s = ps @ ''Won't Believe'' @ ss) \<or> (\<exists>ps ss. s = ps @ ''Secret'' @ ss)
            \<or> (\<exists>ps ss. s = ps @ ''Top'' @ ss) \<or> (\<exists>ps ss. s = ps @ ''Guess'' @ ss)
      then Inr (strip s)
      else Inl (ValueError ''Title must be clickbait-y and contain one of: Won't Believe, Secret, Top, Guess''))"
proof -
  have e: "s = [] \<Longrightarrow> list_all isspace s" by simp
  have c: "list_ex (str_contains s) CLICKBAIT_PHRASES \<longleftrightarrow>
      (\<exists>ps ss. s = ps @ ''Won't Believe'' @ ss) \<or> (\<exists>ps ss. s = ps @ ''Secret'' @ ss)
            \<or> (\<exists>ps ss. s = ps @ ''Top'' @ ss) \<or> (\<exists>ps ss. s = ps @ ''Guess'' @ ss)"
    by (simp add: CLICKBAIT_PHRASES_def str_contains_iff)
  show ?thesis
    unfolding validate_title_def join_phrases c[symmetric]
    using e by (auto simp: strip_Nil_iff)
qed

lemma validate_name_Inr_iff:
  "validate_name rows sid v = Inr n \<longleftrightarrow>
     truthy v \<and> n = strip (py_str v) \<and> n \<noteq> [] \<and>
     (case find (\<lambda>a. name a = n) rows of None \<Rightarrow> True | Some ex \<Rightarrow> Some (author_id ex) = sid)"
  by (auto simp: validate_name_def query_first_by_name_def Let_def split: option.splits)

lemma validate_name_dup_iff:
  "validate_name rows sid v = Inl (ValueError ''Author name must be unique.'') \<longleftrightarrow>
     truthy v \<and> strip (py_str v) \<noteq> [] \<and>
     (\<exists>ex. find (\<lambda>a. name a = strip (py_str v)) rows = Some ex \<and> Some (author_id ex) \<noteq> sid)"
  by (auto simp: validate_name_def query_first_by_name_def Let_def split: option.splits)

lemma validate_phone_number_Inr: "validate_phone_number v = Inr w \<Longrightarrow> w = v"
  by (auto simp: validate_phone_number_def split: if_splits pyval.splits)

section \<open>Facts about the storage\<close>

lemma find_unique:
  "distinct (map f xs) \<Longrightarrow> x \<in> set xs \<Longrightarrow> find (\<lambda>a. f a = f x) xs = Some x"
  by (induction xs) (auto simp: image_iff)

lemma fold_max_ge: "(m::int) \<le> fold max xs m"
  by (induction xs arbitrary: m) (auto intro: order_trans[OF max.cobounded2])

lemma fold_max_mem: "x \<in> set xs \<Longrightarrow> (x::int) \<le> fold max xs m"
proof (induction xs arbitrary: m)
  case Nil then show ?case by simp
next
  case (Cons y ys)
  show ?case
  proof (cases "x = y")
    case True
    have "x \<le> max y m" using True by simp
    also have "\<dots> \<le> fold max ys (max y m)" by (rule fold_max_ge)
    finally show ?thesis by simp
  next
    case False
    with Cons show ?thesis by simp
  qed
qed

lemma fresh_id_fresh: "fresh_id rows \<notin> author_id ` set rows"
proof
  assume "fresh_id rows \<in> author_id ` set rows"
  then have "fresh_id rows \<in> set (map author_id rows)" by simp
  then have "fresh_id rows \<le> fold max (map author_id rows) 0" by (rule fold_max_mem)
  then show False by (simp add: fresh_id_def)
qed

lemma rename_distinct:
  assumes "distinct (map author_id (rows :: author list))" "distinct (map name rows)"
    and "\<forall>a\<in>set rows. name a = n \<longrightarrow> author_id a = i"
  shows "distinct (map name (map (\<lambda>a. if author_id a = i then a\<lparr>name := n\<rparr> else a) rows))"
proof -
  define g where "g = (\<lambda>a::author. if author_id a = i then a\<lparr>name := n\<rparr> else a)"
  have g: "name (g b) = (if author_id b = i then n else name b)" for b
    by (simp add: g_def)
  have "distinct (map name (map g rows))"
    using assms
  proof (induction rows)
    case Nil
    then show ?case by simp
  next
    case (Cons a rows)
    then have ih: "distinct (map name (map g rows))" by simp
    have notin: "name (g a) \<notin> set (map name (map g rows))"
    proof
      assume "name (g a) \<in> set (map name (map g rows))"
      then obtain b where b: "b \<in> set rows" "name (g b) = name (g a)" by auto
      have ab: "author_id b \<noteq> author_id a" "name b \<noteq> name a"
        using Cons.prems(1,2) b(1) by (force simp: image_iff)+
      show False
      proof (cases "author_id a = i")
        case True
        with ab b(2) have "name b = n" by (simp add: g)
        then have "author_id b = i" using Cons.prems(3) b(1) by simp
        with True ab show False by simp
      next
        case False
        with ab b(2) have "author_id b = i" "name a = n" by (auto simp: g split: if_splits)
        then have "author_id a = i" using Cons.prems(3) by simp
        with False show False by simp
      qed
    qed
    have "map name (map g (a # rows)) = name (g a) # map name (map g rows)" by simp
    then show ?case using notin ih by (simp only: distinct.simps simp_thms)
  qed
  then show ?thesis by (simp only: g_def)
qed

lemma validate_name_ok_others:
  assumes "distinct (map name rows)" "validate_name rows sid v = Inr n"
  shows "\<forall>a\<in>set rows. name a = n \<longrightarrow> Some (author_id a) = sid"
proof (intro ballI impI)
  fix a assume a: "a \<in> set rows" "name a = n"
  then have "find (\<lambda>b. name b = name a) rows = Some a"
    using assms(1) by (intro find_unique)
  then show "Some (author_id a) = sid"
    using assms(2) a(2) by (simp add: validate_name_Inr_iff)
qed

lemma validate_name_result:
  "validate_name rows sid v = Inr n \<Longrightarrow> n \<noteq> [] \<and> strip n = n"
  by (auto simp: validate_name_Inr_iff strip_idem)

lemma apply_op_ok:
  assumes "store_ok rows" "apply_op rows x = Inr rows'"
  shows "store_ok rows'"
proof (cases x)
  case (Construct nm ph)
  from assms(2) Construct obtain n p where
    v: "validate_name rows None nm = Inr n" "validate_phone_number ph = Inr p"
    and r: "rows' = rows @ [\<lparr>author_id = fresh_id rows, name = n, phone_number = p\<rparr>]"
    by (auto split: sum.splits)
  have "n \<notin> name ` set rows"
    using validate_name_ok_others[OF _ v(1)] assms(1) by (auto simp: store_ok_def)
  moreover have "validate_phone_number p = Inr p"
    using v(2) validate_phone_number_Inr by metis
  ultimately show ?thesis
    using assms(1) r validate_name_result[OF v(1)] fresh_id_fresh[of rows]
    by (simp add: store_ok_def)
next
  case (AssignName i nm)
  from assms(2) AssignName obtain n where
    v: "validate_name rows (Some i) nm = Inr n"
    and r: "rows' = map (\<lambda>a. if author_id a = i then a\<lparr>name := n\<rparr> else a) rows"
    by (auto split: sum.splits)
  have d: "distinct (map author_id rows)" "distinct (map name rows)"
    using assms(1) by (simp_all add: store_ok_def)
  have "\<forall>a\<in>set rows. name a = n \<longrightarrow> author_id a = i"
    using validate_name_ok_others[OF d(2) v] by auto
  then have 1: "distinct (map name rows')"
    unfolding r using d by (intro rename_distinct)
  have "map author_id rows' = map author_id rows"
    unfolding r by (induction rows) auto
  then have 2: "distinct (map author_id rows')"
    using d(1) by simp
  have 3: "list_all (\<lambda>a. name a \<noteq> [] \<and> strip (name a) = name a
        \<and> validate_phone_number (phone_number a) = Inr (phone_number a)) rows'"
    using assms(1) validate_name_result[OF v]
    by (auto simp: store_ok_def r list_all_iff)
  show ?thesis
    unfolding store_ok_def using 1 2 3 by blast
next
  case (AssignPhone i ph)
  from assms(2) AssignPhone obtain p where
    v: "validate_phone_number ph = Inr p"
    and r: "rows' = map (\<lambda>a. if author_id a = i then a\<lparr>phone_number := p\<rparr> else a) rows"
    by (auto split: sum.splits)
  have p: "validate_phone_number p = Inr p"
    using v validate_phone_number_Inr by metis
  have "map author_id rows' = map author_id rows"
    unfolding r by (induction rows) auto
  then have 1: "distinct (map author_id rows')"
    using assms(1) by (simp add: store_ok_def)
  have "map name rows' = map name rows"
    unfolding r by (induction rows) auto
  then have 2: "distinct (map name rows')"
    using assms(1) by (simp add: store_ok_def)
  have 3: "list_all (\<lambda>a. name a \<noteq> [] \<and> strip (name a) = name a
        \<and> validate_phone_number (phone_number a) = Inr (phone_number a)) rows'"
    using assms(1) p
    by (auto simp: store_ok_def r list_all_iff)
  show ?thesis
    unfolding store_ok_def using 1 2 3 by blast
next
  case (Delete i)
  with assms(2) have r: "rows' = filter (\<lambda>a. author_id a \<noteq> i) rows" by simp
  show ?thesis
    using assms(1) by (auto simp: store_ok_def r list_all_iff distinct_map_filter)
qed

lemma run_ok: "store_ok rows \<Longrightarrow> store_ok (run rows xs)"
proof (induction xs arbitrary: rows)
  case Nil then show ?case by simp
next
  case (Cons x xs)
  then show ?case by (cases "apply_op rows x") (auto dest: apply_op_ok)
qed

lemma run_empty_ok: "store_ok (run [] xs)"
  by (rule run_ok) (simp add: store_ok_def)

lemma store_ok_stripped_names:
  "store_ok rows \<Longrightarrow> map (\<lambda>a. strip (name a)) rows = map name rows"
  by (simp add: store_ok_def list_all_iff)

lemma validate_name_rejects_other:
  assumes "store_ok rows" "a \<in> set rows" "Some (author_id a) \<noteq> sid"
    and "strip (py_str v) = strip (name a)"
  shows "validate_name rows sid v =
     (if truthy v then Inl (ValueError ''Author name must be unique.'')
      else Inl (ValueError ''Author must have a name.''))"
proof -
  have n: "strip (name a) = name a" "name a \<noteq> []"
    using assms(1,2) by (auto simp: store_ok_def list_all_iff)
  have "find (\<lambda>b. name b = name a) rows = Some a"
    using assms(1,2) by (intro find_unique) (simp add: store_ok_def)
  then show ?thesis
    using assms(3,4) n by (simp add: validate_name_def query_first_by_name_def)
qed

section \<open>Author names\<close>

text \<open>
  Claim C1. In every state of the rows reached from the empty table by constructions,
  assignments and deletions (an operation whose validator raises changes nothing), no
  two rows share the same trimmed name. In such a state \<open>validate_name\<close> rejects every
  candidate whose trimmed value equals the trimmed name of a row other than the record
  being validated: with the uniqueness error when the candidate is a truthy value, and
  with the missing-name error otherwise.
\<close>

theorem author_trimmed_names_distinct:
  "distinct (map (\<lambda>a. strip (name a)) (run [] ops)) \<and>
   (\<forall>a\<in>set (run [] ops). Some (author_id a) \<noteq> sid \<and> strip (py_str v) = strip (name a) \<longrightarrow>
      validate_name (run [] ops) sid v =
        (if truthy v then Inl (ValueError ''Author name must be unique.'')
         else Inl (ValueError ''Author must have a name.'')))"
proof -
  have ok: "store_ok (run [] ops)" by (rule run_empty_ok)
  then have "distinct (map (\<lambda>a. strip (name a)) (run [] ops))"
    by (simp only: store_ok_stripped_names) (simp add: store_ok_def)
  then show ?thesis
    using validate_name_rejects_other[OF ok] by blast
qed

text \<open>An instance: after one author named \<open>Ann\<close> is stored.\<close>

lemma strip_Ann: "strip ''Ann'' = ''Ann''" "strip ''  Ann '' = ''Ann''"
  by (simp_all add: strip_def isspace_def)

lemma run_Ann:
  "run [] [Construct (PStr ''Ann'') PNone] = [\<lparr>author_id = 1, name = ''Ann'', phone_number = PNone\<rparr>]"
  by (simp add: validate_name_def query_first_by_name_def validate_phone_number_def fresh_id_def strip_Ann)

theorem author_trimmed_names_distinct_witness:
  "distinct (map (\<lambda>a. strip (name a)) (run [] [Construct (PStr ''Ann'') PNone])) \<and>
   run [] [Construct (PStr ''Ann'') PNone] = [\<lparr>author_id = 1, name = ''Ann'', phone_number = PNone\<rparr>] \<and>
   validate_name (run [] [Construct (PStr ''Ann'') PNone]) None (PStr ''  Ann '')
     = Inl (ValueError ''Author name must be unique.'') \<and>
   validate_name (run [] [Construct (PStr ''Ann'') PNone]) (Some 2) (PStr ''Ann'')
     = Inl (ValueError ''Author name must be unique.'')"
  using author_trimmed_names_distinct[of "[Construct (PStr ''Ann'') PNone]" None "PStr ''  Ann ''"]
    author_trimmed_names_distinct[of "[Construct (PStr ''Ann'') PNone]" "Some 2" "PStr ''Ann''"]
  unfolding run_Ann by (simp add: strip_Ann)

section \<open>Duplicate names\<close>

lemma find_append_last:
  "P x \<Longrightarrow> \<forall>y\<in>set xs. \<not> P y \<Longrightarrow> find P (xs @ [x]) = Some x"
  by (induction xs) auto

lemma validate_name_unused:
  assumes "s \<noteq> []" "strip s = s" "s \<notin> name ` set rows"
  shows "validate_name rows sid (PStr s) = Inr s"
proof -
  have "find (\<lambda>a. name a = s) rows = None"
    using assms(3) by (auto simp: find_None_iff)
  then show ?thesis
    using assms(1,2) by (simp add: validate_name_def query_first_by_name_def)
qed

lemma validate_name_only_row:
  assumes "s \<noteq> []" "strip (py_str v) = s" "truthy v" "s \<notin> name ` set rows" "sid \<noteq> Some i"
  shows "validate_name (rows @ [\<lparr>author_id = i, name = s, phone_number = ph\<rparr>]) sid v
           = Inl (ValueError ''Author name must be unique.'')"
proof -
  have "find (\<lambda>a. name a = s) (rows @ [\<lparr>author_id = i, name = s, phone_number = ph\<rparr>])
          = Some \<lparr>author_id = i, name = s, phone_number = ph\<rparr>"
    using assms(4) by (intro find_append_last) auto
  then show ?thesis
    using assms(1,2,3,5) by (auto simp: validate_name_def query_first_by_name_def)
qed

lemma two_spaces: "\<forall>c\<in>set ''  ''. isspace c"
  by (simp add: isspace_def)

lemma validate_name_dup_only:
  assumes "validate_name rows sid v = Inl (ValueError ''Author name must be unique.'')"
  shows "truthy v \<and> strip (py_str v) \<noteq> [] \<and>
     (\<exists>a\<in>set rows. name a = strip (py_str v) \<and> Some (author_id a) \<noteq> sid)"
proof -
  from assms obtain ex where
    t: "truthy v" "strip (py_str v) \<noteq> []"
    and f: "find (\<lambda>a. name a = strip (py_str v)) rows = Some ex" "Some (author_id ex) \<noteq> sid"
    by (auto simp: validate_name_dup_iff)
  from f(1) have "ex \<in> set rows" "name ex = strip (py_str v)"
    by (auto simp: find_Some_iff)
  with t f(2) show ?thesis by blast
qed

lemma duplicate_error_elsewhere:
  "validate_phone_number v \<noteq> Inl (ValueError ''Author name must be unique.'')"
  "validate_title v \<noteq> Inl (ValueError ''Author name must be unique.'')"
  "validate_content v \<noteq> Inl (ValueError ''Author name must be unique.'')"
  "validate_summary v \<noteq> Inl (ValueError ''Author name must be unique.'')"
  "validate_category v \<noteq> Inl (ValueError ''Author name must be unique.'')"
proof -
  show "validate_phone_number v \<noteq> Inl (ValueError ''Author name must be unique.'')"
    by (cases v) (simp_all add: validate_phone_number_def)
  show "validate_title v \<noteq> Inl (ValueError ''Author name must be unique.'')"
    unfolding validate_title_def join_phrases by (cases v) simp_all
  show "validate_content v \<noteq> Inl (ValueError ''Author name must be unique.'')"
    by (cases v) (simp_all add: validate_content_def)
  show "validate_summary v \<noteq> Inl (ValueError ''Author name must be unique.'')"
    by (cases v) (simp_all add: validate_summary_def)
  show "validate_category v \<noteq> Inl (ValueError ''Author name must be unique.'')"
    by (simp add: validate_category_def)
qed

text \<open>
  Claim C2. Let \<open>s\<close> be a non-empty trimmed string that no stored author has as its
  name. Constructing an author named \<open>s\<close> succeeds and stores a row named \<open>s\<close>. In the
  resulting state, validating the candidate \<open>s\<close>, or \<open>s\<close> with two spaces on each side,
  for any other record (one under construction, or another stored one) fails with the
  error \<^verbatim>\<open>ValueError("Author name must be unique.")\<close>, and so does the construction of a
  second author with either candidate. That error differs from the error of a missing
  name, and \<open>validate_name\<close> raises it only for a well-formed candidate whose trimmed
  value is the name of another stored row; no other validator raises it.
\<close>

theorem duplicate_name_rejected:
  assumes "s \<noteq> []" and "strip s = s" and "s \<notin> name ` set rows"
    and "validate_phone_number ph = Inr ph"
    and "rows' = rows @ [\<lparr>author_id = fresh_id rows, name = s, phone_number = ph\<rparr>]"
    and "sid \<noteq> Some (fresh_id rows)"
  shows "apply_op rows (Construct (PStr s) ph) = Inr rows'
    \<and> validate_name rows' sid (PStr s) = Inl (ValueError ''Author name must be unique.'')
    \<and> validate_name rows' sid (PStr (''  '' @ s @ ''  '')) = Inl (ValueError ''Author name must be unique.'')
    \<and> apply_op rows' (Construct (PStr s) ph) = Inl (ValueError ''Author name must be unique.'')
    \<and> apply_op rows' (Construct (PStr (''  '' @ s @ ''  '')) ph) = Inl (ValueError ''Author name must be unique.'')
    \<and> ValueError ''Author name must be unique.'' \<noteq> ValueError ''Author must have a name.''
    \<and> (validate_name rs i v = Inl (ValueError ''Author name must be unique.'') \<longrightarrow>
         truthy v \<and> strip (py_str v) \<noteq> [] \<and>
         (\<exists>a\<in>set rs. name a = strip (py_str v) \<and> Some (author_id a) \<noteq> i))
    \<and> validate_phone_number v \<noteq> Inl (ValueError ''Author name must be unique.'')
    \<and> validate_title v \<noteq> Inl (ValueError ''Author name must be unique.'')
    \<and> validate_content v \<noteq> Inl (ValueError ''Author name must be unique.'')
    \<and> validate_summary v \<noteq> Inl (ValueError ''Author name must be unique.'')
    \<and> validate_category v \<noteq> Inl (ValueError ''Author name must be unique.'')"
proof -
  have pad: "strip (''  '' @ s @ ''  '') = s"
    using two_spaces two_spaces assms(2) by (rule strip_padded)
  have 1: "apply_op rows (Construct (PStr s) ph) = Inr rows'"
    using validate_name_unused[OF assms(1,2,3)] assms(4,5) by simp
  have dup: "validate_name rows' j v' = Inl (ValueError ''Author name must be unique.'')"
    if "strip (py_str v') = s" "truthy v'" "j \<noteq> Some (fresh_id rows)" for j v'
    unfolding assms(5) using assms(1) that(1,2) assms(3) that(3) by (rule validate_name_only_row)
  have 2: "validate_name rows' sid (PStr s) = Inl (ValueError ''Author name must be unique.'')"
    using assms(1,2,6) by (intro dup) simp_all
  have 3: "validate_name rows' sid (PStr (''  '' @ s @ ''  '')) = Inl (ValueError ''Author name must be unique.'')"
    using pad assms(6) by (intro dup) simp_all
  have 4: "apply_op rows' (Construct (PStr s) ph) = Inl (ValueError ''Author name must be unique.'')"
    using dup[of "PStr s" None] assms(1,2) by simp
  have 5: "apply_op rows' (Construct (PStr (''  '' @ s @ ''  '')) ph) = Inl (ValueError ''Author name must be unique.'')"
    using dup[of "PStr (''  '' @ s @ ''  '')" None] pad by simp
  have 6: "ValueError ''Author name must be unique.'' \<noteq> ValueError ''Author must have a name.''"
    by simp
  have 7: "validate_name rs i v = Inl (ValueError ''Author name must be unique.'') \<longrightarrow>
         truthy v \<and> strip (py_str v) \<noteq> [] \<and>
         (\<exists>a\<in>set rs. name a = strip (py_str v) \<and> Some (author_id a) \<noteq> i)"
    using validate_name_dup_only[of rs i v] by blast
  show ?thesis
    using 1 2 3 4 5 6 7 duplicate_error_elsewhere[of v] by (intro conjI)
qed

text \<open>An instance: the name \<open>Bob\<close> on the empty table.\<close>

lemma strip_Bob: "strip ''Bob'' = ''Bob''"
  by (simp add: strip_def isspace_def)

theorem duplicate_name_rejected_witness:
  "apply_op [] (Construct (PStr ''Bob'') PNone)
       = Inr [\<lparr>author_id = 1, name = ''Bob'', phone_number = PNone\<rparr>]
   \<and> validate_name [\<lparr>author_id = 1, name = ''Bob'', phone_number = PNone\<rparr>] None (PStr ''Bob'')
       = Inl (ValueError ''Author name must be unique.'')
   \<and> validate_name [\<lparr>author_id = 1, name = ''Bob'', phone_number = PNone\<rparr>] None (PStr ''  Bob  '')
       = Inl (ValueError ''Author name must be unique.'')
   \<and> apply_op [\<lparr>author_id = 1, name = ''Bob'', phone_number = PNone\<rparr>] (Construct (PStr ''Bob'') PNone)
       = Inl (ValueError ''Author name must be unique.'')
   \<and> apply_op [\<lparr>author_id = 1, name = ''Bob'', phone_number = PNone\<rparr>] (Construct (PStr ''  Bob  '') PNone)
       = Inl (ValueError ''Author name must be unique.'')
   \<and> (\<exists>a\<in>set [\<lparr>author_id = 1, name = ''Bob'', phone_number = PNone\<rparr>].
         name a = ''Bob'' \<and> Some (author_id a) \<noteq> None)"
proof -
  have h: "''Bob'' \<noteq> []" "''Bob'' \<notin> name ` set []" "validate_phone_number PNone = Inr PNone"
    "[\<lparr>author_id = 1, name = ''Bob'', phone_number = PNone\<rparr>]
       = [] @ [\<lparr>author_id = fresh_id [], name = ''Bob'', phone_number = PNone\<rparr>]"
    "None \<noteq> Some (fresh_id [])"
    by (simp_all add: validate_phone_number_def fresh_id_def)
  show ?thesis
    using duplicate_name_rejected[OF h(1) strip_Bob h(2,3,4,5),
        of "[\<lparr>author_id = 1, name = ''Bob'', phone_number = PNone\<rparr>]" None "PStr ''Bob''"]
    by (simp add: strip_Bob)
qed

section \<open>The name validator\<close>

lemma validate_name_str:
  "validate_name rows sid (PStr s) =
     (if list_all isspace s then Inl (ValueError ''Author must have a name.'')
      else case find (\<lambda>a. name a = strip s) rows of
             None \<Rightarrow> Inr (strip s)
           | Some ex \<Rightarrow> if Some (author_id ex) \<noteq> sid
                        then Inl (ValueError ''Author name must be unique.'')
                        else Inr (strip s))"
proof -
  have e: "s = [] \<Longrightarrow> list_all isspace s" by simp
  have n: "strip s = [] \<longleftrightarrow> list_all isspace s" by (rule strip_Nil_iff)
  show ?thesis
  proof (cases "list_all isspace s")
    case True
    then show ?thesis by (simp add: validate_name_def n)
  next
    case False
    then have "s \<noteq> []" using e by blast
    then show ?thesis
      using False by (simp add: validate_name_def query_first_by_name_def n Let_def)
  qed
qed

lemma find_no_other:
  "list_all (\<lambda>a. name a = n \<longrightarrow> Some (author_id a) = sid) rows \<Longrightarrow>
   find (\<lambda>a. name a = n) rows = Some ex \<Longrightarrow> Some (author_id ex) = sid"
  by (induction rows) (auto split: if_splits)

lemma validate_name_str_cases:
  "\<not> list_all isspace s \<Longrightarrow>
     validate_name rows sid (PStr s) = Inr (strip s)
     \<or> validate_name rows sid (PStr s) = Inl (ValueError ''Author name must be unique.'')"
  by (cases "find (\<lambda>a. name a = strip s) rows") (simp_all add: validate_name_str)

lemma validate_name_str_no_other:
  assumes "\<not> list_all isspace s"
    and "list_all (\<lambda>a. name a = strip s \<longrightarrow> Some (author_id a) = sid) rows"
  shows "validate_name rows sid (PStr s) = Inr (strip s)"
proof (cases "find (\<lambda>a. name a = strip s) rows")
  case None
  then show ?thesis using assms(1) by (simp add: validate_name_str)
next
  case (Some ex)
  then have "Some (author_id ex) = sid" using assms(2) find_no_other by blast
  then show ?thesis using assms(1) Some by (simp add: validate_name_str)
qed

lemma validate_name_str_Inr: "validate_name rows j (PStr s) = Inr n \<Longrightarrow> n = strip s"
  by (simp add: validate_name_Inr_iff)

lemma construct_stores_trimmed:
  assumes "apply_op rows (Construct (PStr s) ph) = Inr rows'"
  shows "butlast rows' = rows \<and> name (last rows') = strip s"
proof (cases "validate_name rows None (PStr s)")
  case (Inl e)
  with assms show ?thesis by simp
next
  case (Inr n)
  then have n: "n = strip s" by (rule validate_name_str_Inr)
  show ?thesis
  proof (cases "validate_phone_number ph")
    case (Inl e)
    with assms Inr show ?thesis by simp
  next
    case p: (Inr p)
    with assms Inr n show ?thesis by auto
  qed
qed

lemma assign_stores_trimmed:
  assumes "apply_op rows (AssignName i (PStr s)) = Inr rows'"
  shows "list_all (\<lambda>a. author_id a = i \<longrightarrow> name a = strip s) rows'"
proof (cases "validate_name rows (Some i) (PStr s)")
  case (Inl e)
  with assms show ?thesis by simp
next
  case (Inr n)
  then have n: "n = strip s" by (rule validate_name_str_Inr)
  from assms Inr have "rows' = map (\<lambda>a. if author_id a = i then a\<lparr>name := n\<rparr> else a) rows"
    by simp
  moreover have "list_all (\<lambda>a. author_id a = i \<longrightarrow> name a = n)
      (map (\<lambda>a. if author_id a = i then a\<lparr>name := n\<rparr> else a) rows)"
    by (induction rows) auto
  ultimately show ?thesis using n by simp
qed

text \<open>
  Claim C5. For a candidate that is a string or absent: \<open>validate_name\<close> fails with
  \<^verbatim>\<open>ValueError("Author must have a name.")\<close> when the candidate is absent, empty or made of
  whitespace only. For every other string it returns the candidate trimmed of leading
  and trailing whitespace, or fails the uniqueness check; it returns the trimmed
  candidate whenever no other stored row has that name. The trimmed value is the name
  that a construction or an assignment stores.
\<close>

theorem validate_name_trims:
  "validate_name rows sid PNone = Inl (ValueError ''Author must have a name.'')
   \<and> (list_all isspace s \<longrightarrow>
        validate_name rows sid (PStr s) = Inl (ValueError ''Author must have a name.''))
   \<and> (\<not> list_all isspace s \<longrightarrow>
        validate_name rows sid (PStr s) = Inr (strip s)
        \<or> validate_name rows sid (PStr s) = Inl (ValueError ''Author name must be unique.''))
   \<and> (\<not> list_all isspace s
        \<and> list_all (\<lambda>a. name a = strip s \<longrightarrow> Some (author_id a) = sid) rows \<longrightarrow>
        validate_name rows sid (PStr s) = Inr (strip s))
   \<and> (apply_op rows (Construct (PStr s) ph) = Inr rows' \<longrightarrow>
        butlast rows' = rows \<and> name (last rows') = strip s)
   \<and> (apply_op rows (AssignName i (PStr s)) = Inr rows' \<longrightarrow>
        list_all (\<lambda>a. author_id a = i \<longrightarrow> name a = strip s) rows')"
proof -
  have 1: "validate_name rows sid PNone = Inl (ValueError ''Author must have a name.'')"
    by (simp add: validate_name_def)
  have 2: "list_all isspace s \<longrightarrow>
      validate_name rows sid (PStr s) = Inl (ValueError ''Author must have a name.'')"
    by (simp add: validate_name_str)
  show ?thesis
    using 1 2 validate_name_str_cases[of s rows sid] validate_name_str_no_other[of s sid rows]
      construct_stores_trimmed[of rows s ph rows'] assign_stores_trimmed[of rows i s rows']
    by blast
qed

text \<open>An instance: the candidate \<open>Cy\<close> between spaces.\<close>

lemma strip_Cy: "strip '' Cy '' = ''Cy''" "\<not> list_all isspace '' Cy ''" "list_all isspace ''   ''"
  by (simp_all add: strip_def isspace_def)

theorem validate_name_trims_witness:
  "validate_name [\<lparr>author_id = 1, name = ''Cy'', phone_number = PNone\<rparr>] (Some 1) (PStr ''   '')
     = Inl (ValueError ''Author must have a name.'')
   \<and> validate_name [\<lparr>author_id = 1, name = ''Cy'', phone_number = PNone\<rparr>] (Some 1) (PStr '' Cy '')
     = Inr (strip '' Cy '')
   \<and> apply_op [] (Construct (PStr '' Cy '') PNone)
     = Inr [\<lparr>author_id = 1, name = ''Cy'', phone_number = PNone\<rparr>]
   \<and> name (last [\<lparr>author_id = 1, name = ''Cy'', phone_number = PNone\<rparr>]) = strip '' Cy ''
   \<and> strip '' Cy '' = ''Cy''"
proof -
  let ?R = "[\<lparr>author_id = 1, name = ''Cy'', phone_number = PNone\<rparr>]"
  have c: "apply_op [] (Construct (PStr '' Cy '') PNone) = Inr ?R"
    by (simp add: validate_name_def query_first_by_name_def validate_phone_number_def
        fresh_id_def strip_Cy)
  have w1: "validate_name ?R (Some 1) (PStr ''   '') = Inl (ValueError ''Author must have a name.'')"
    using validate_name_trims[of ?R "Some 1" "''   ''" PNone "[]" 0, THEN conjunct2, THEN conjunct1]
      strip_Cy(3)
    by (rule mp)
  have p: "\<not> list_all isspace '' Cy ''
      \<and> list_all (\<lambda>a. name a = strip '' Cy '' \<longrightarrow> Some (author_id a) = Some 1) ?R"
    using strip_Cy(2) by simp
  have w2: "validate_name ?R (Some 1) (PStr '' Cy '') = Inr (strip '' Cy '')"
    using validate_name_trims[of ?R "Some 1" "'' Cy ''" PNone "[]" 0,
        THEN conjunct2, THEN conjunct2, THEN conjunct2, THEN conjunct1] p
    by (rule mp)
  have w3: "butlast ?R = [] \<and> name (last ?R) = strip '' Cy ''"
    using validate_name_trims[of "[]" None "'' Cy ''" PNone ?R 0,
        THEN conjunct2, THEN conjunct2, THEN conjunct2, THEN conjunct2, THEN conjunct1] c
    by (rule mp)
  show ?thesis
    using w1 w2 c w3 strip_Cy(1) by blast
qed

section \<open>Post content, summary and category\<close>

text \<open>
  Claim C6. For a candidate that is a string or absent, \<open>validate_content\<close> fails with
  its \<^verbatim>\<open>ValueError\<close> exactly when the candidate is absent or shorter than 250 characters,
  and otherwise returns the candidate unchanged. A content of 249 characters fails;
  contents of 250 and of 1000 characters succeed.
\<close>

theorem validate_content_min_length:
  "validate_content PNone = Inl (ValueError ''Content must be at least 250 characters long.'')
   \<and> validate_content (PStr s) =
       (if length s < 250 then Inl (ValueError ''Content must be at least 250 characters long.'')
        else Inr (PStr s))
   \<and> validate_content (PStr (replicate 249 CHR ''a''))
        = Inl (ValueError ''Content must be at least 250 characters long.'')
   \<and> validate_content (PStr (replicate 250 CHR ''a'')) = Inr (PStr (replicate 250 CHR ''a''))
   \<and> validate_content (PStr (replicate 1000 CHR ''a'')) = Inr (PStr (replicate 1000 CHR ''a''))"
  by (simp add: validate_content_def)

text \<open>
  Claim C7. \<open>validate_summary\<close> returns an absent candidate unchanged; a string fails
  with its \<^verbatim>\<open>ValueError\<close> exactly when it is longer than 250 characters, and otherwise is
  returned unchanged. A summary of 250 characters succeeds; one of 251 fails.
\<close>

theorem validate_summary_max_length:
  "validate_summary PNone = Inr PNone
   \<and> validate_summary (PStr s) =
       (if length s > 250 then Inl (ValueError ''Summary must be at most 250 characters.'')
        else Inr (PStr s))
   \<and> validate_summary (PStr (replicate 250 CHR ''a'')) = Inr (PStr (replicate 250 CHR ''a''))
   \<and> validate_summary (PStr (replicate 251 CHR ''a''))
        = Inl (ValueError ''Summary must be at most 250 characters.'')"
  by (simp add: validate_summary_def)

text \<open>
  Claim C8. \<open>validate_category\<close> returns the candidate unchanged exactly when it is the
  string \<open>Fiction\<close> or the string \<open>Non-Fiction\<close>; every other candidate fails with its
  \<^verbatim>\<open>ValueError\<close>: another case, another word, surrounding whitespace, an absent value.
\<close>

theorem validate_category_exact:
  "validate_category v =
     (if v = PStr ''Fiction'' \<or> v = PStr ''Non-Fiction'' then Inr v
      else Inl (ValueError ''Category must be 'Fiction' or 'Non-Fiction'.''))
   \<and> validate_category (PStr ''Fiction'') = Inr (PStr ''Fiction'')
   \<and> validate_category (PStr ''Non-Fiction'') = Inr (PStr ''Non-Fiction'')
   \<and> validate_category (PStr ''fiction'')
        = Inl (ValueError ''Category must be 'Fiction' or 'Non-Fiction'.'')
   \<and> validate_category (PStr ''Drama'')
        = Inl (ValueError ''Category must be 'Fiction' or 'Non-Fiction'.'')
   \<and> validate_category (PStr '' Fiction'')
        = Inl (ValueError ''Category must be 'Fiction' or 'Non-Fiction'.'')
   \<and> validate_category PNone
        = Inl (ValueError ''Category must be 'Fiction' or 'Non-Fiction'.'')"
  by (simp add: validate_category_def)

section \<open>The phone number validator\<close>

text \<open>
  Claim C10. Every present candidate that is not a string is rejected by
  \<open>validate_phone_number\<close> with \<^verbatim>\<open>ValueError("Phone number must be exactly 10 digits.")\<close>:
  the validator tests the type and never converts the candidate to a string.
\<close>

theorem validate_phone_number_rejects_non_strings:
  "v \<noteq> PNone \<Longrightarrow> \<not> (\<exists>s. v = PStr s) \<Longrightarrow>
   validate_phone_number v = Inl (ValueError ''Phone number must be exactly 10 digits.'')"
  by (cases v) (simp_all add: validate_phone_number_def)

text \<open>
  An instance: the integer 1234567890, whose decimal rendering has ten digits and is
  accepted as a string.
\<close>

lemma py_str_1234567890: "py_str (PInt 1234567890) = ''1234567890''"
  by (simp add: str_nat_digit str_nat_more)

lemma isdigit_1234567890: "isdigit ''1234567890''"
  by (simp add: isdigit_def isdigit_char_def)

theorem validate_phone_number_rejects_non_strings_witness:
  "py_str (PInt 1234567890) = ''1234567890''
   \<and> length (py_str (PInt 1234567890)) = 10
   \<and> isdigit (py_str (PInt 1234567890))
   \<and> validate_phone_number (PStr (py_str (PInt 1234567890))) = Inr (PStr ''1234567890'')
   \<and> validate_phone_number (PInt 1234567890)
        = Inl (ValueError ''Phone number must be exactly 10 digits.'')
   \<and> validate_phone_number (PBool True)
        = Inl (ValueError ''Phone number must be exactly 10 digits.'')"
proof -
  have p: "validate_phone_number (PStr ''1234567890'') = Inr (PStr ''1234567890'')"
    by (simp add: validate_phone_number_def isdigit_1234567890)
  have i: "validate_phone_number (PInt 1234567890)
        = Inl (ValueError ''Phone number must be exactly 10 digits.'')"
    using validate_phone_number_rejects_non_strings[of "PInt 1234567890"] by simp
  have b: "validate_phone_number (PBool True)
        = Inl (ValueError ''Phone number must be exactly 10 digits.'')"
    using validate_phone_number_rejects_non_strings[of "PBool True"] by simp
  show ?thesis
    unfolding py_str_1234567890 using p i b isdigit_1234567890 by simp
qed

text \<open>
  Claim C3. The claim says that a string is accepted exactly when it has ten characters
  that are all digits 0 to 9. The code tests the characters with \<^verbatim>\<open>str.isdigit\<close>: an
  absent candidate is returned unchanged, and a string is accepted, and returned
  unchanged, exactly when it has ten characters that all satisfy \<^verbatim>\<open>str.isdigit\<close>. That
  holds for the superscript digits too, so the code accepts strings that the claim
  rejects.
\<close>

theorem validate_phone_number_accepts_isdigit:
  "validate_phone_number PNone = Inr PNone
   \<and> validate_phone_number (PStr s) =
       (if length s = 10 \<and> list_all isdigit_char s then Inr (PStr s)
        else Inl (ValueError ''Phone number must be exactly 10 digits.''))"
  by (auto simp: validate_phone_number_def isdigit_def)

text \<open>
  The failing input: the ten-character string made of \<open>123456789\<close> and the superscript
  two (code point 178, not one of the digits 0 to 9, which are the code points 48 to
  57) is accepted and returned unchanged.
\<close>

theorem validate_phone_number_superscript_digit:
  "validate_phone_number (PStr (''123456789'' @ [CHR 0xB2]))
     = Inr (PStr (''123456789'' @ [CHR 0xB2]))
   \<and> length (''123456789'' @ [CHR 0xB2]) = 10
   \<and> (of_char (CHR 0xB2) :: nat) = 178"
  using validate_phone_number_accepts_isdigit[of "''123456789'' @ [CHR 0xB2]"]
  by (simp add: isdigit_char_def)

section \<open>The title validator\<close>

lemma strip_examples:
  "strip ''You Won't Believe This'' = ''You Won't Believe This''"
  "strip ''  Top Secret  '' = ''Top Secret''"
  by (simp_all add: strip_def isspace_def)

lemma validate_title_examples:
  "validate_title (PStr ''You Won't Believe This'') = Inr ''You Won't Believe This''"
  "validate_title (PStr ''Boring Update'')
     = Inl (ValueError ''Title must be clickbait-y and contain one of: Won't Believe, Secret, Top, Guess'')"
  "validate_title (PStr '''') = Inl (ValueError ''Post must have a title.'')"
  "validate_title (PStr ''  Top Secret  '') = Inr ''Top Secret''"
  by (simp_all add: validate_title_def CLICKBAIT_PHRASES_def strip_def isspace_def)

text \<open>
  Claim C4. For a candidate that is a string or absent: \<open>validate_title\<close> fails with
  \<^verbatim>\<open>ValueError("Post must have a title.")\<close> when the candidate is absent, empty or made of
  whitespace only; it fails with the \<^verbatim>\<open>ValueError\<close> of the clickbait policy when none of
  the four phrases occurs as a substring of the untrimmed candidate; for every other
  candidate it returns the candidate trimmed of surrounding whitespace. The title
  \<open>You Won't Believe This\<close> succeeds; \<open>Boring Update\<close> and the empty title fail.
\<close>

theorem validate_title_clickbait:
  "validate_title PNone = Inl (ValueError ''Post must have a title.'')
   \<and> validate_title (PStr s) =
     (if list_all isspace s then Inl (ValueError ''Post must have a title.'')
      else if (\<exists>ps ss. s = ps @ ''Won't Believe'' @ ss) \<or> (\<exists>ps ss. s = ps @ ''Secret'' @ ss)
            \<or> (\<exists>ps ss. s = ps @ ''Top'' @ ss) \<or> (\<exists>ps ss. s = ps @ ''Guess'' @ ss)
      then Inr (strip s)
      else Inl (ValueError
        ''Title must be clickbait-y and contain one of: Won't Believe, Secret, Top, Guess''))
   \<and> validate_title (PStr ''You Won't Believe This'') = Inr ''You Won't Believe This''
   \<and> validate_title (PStr ''Boring Update'') = Inl (ValueError
        ''Title must be clickbait-y and contain one of: Won't Believe, Secret, Top, Guess'')
   \<and> validate_title (PStr '''') = Inl (ValueError ''Post must have a title.'')"
proof -
  have "validate_title PNone = Inl (ValueError ''Post must have a title.'')"
    by (simp add: validate_title_def)
  then show ?thesis
    using validate_title_str[of s] validate_title_examples(1,2,3) by (simp only: simp_thms)
qed

text \<open>An instance: a title with surrounding spaces that contains \<open>Top\<close>.\<close>

theorem validate_title_clickbait_witness:
  "validate_title (PStr ''  Top Secret  '') = Inr (strip ''  Top Secret  '')
   \<and> strip ''  Top Secret  '' = ''Top Secret''"
proof -
  have a: "\<not> list_all isspace ''  Top Secret  ''"
    by (simp add: isspace_def)
  have "str_contains ''  Top Secret  '' ''Top''"
    by simp
  then have b: "\<exists>ps ss. ''  Top Secret  '' = ps @ ''Top'' @ ss"
    by (simp only: str_contains_iff)
  have "validate_title (PStr ''  Top Secret  '') = Inr (strip ''  Top Secret  '')"
    using validate_title_clickbait[of "''  Top Secret  ''", THEN conjunct2, THEN conjunct1]
    by (simp only: a b if_False if_True simp_thms)
  then show ?thesis
    using strip_examples(2) by (rule conjI)
qed

section \<open>Idempotence\<close>

lemma validate_name_idem:
  assumes "validate_name rows sid v = Inr n"
  shows "validate_name rows sid (PStr n) = Inr n"
proof -
  have "n \<noteq> []" "strip n = n"
    using validate_name_result[OF assms] by simp_all
  moreover have "case find (\<lambda>a. name a = n) rows of None \<Rightarrow> True
      | Some ex \<Rightarrow> Some (author_id ex) = sid"
    using assms unfolding validate_name_Inr_iff by (elim conjE)
  ultimately show ?thesis
    by (simp add: validate_name_Inr_iff)
qed

lemma validate_title_Inr:
  assumes "validate_title v = Inr t"
  shows "\<exists>s. v = PStr s \<and> t = strip s \<and> strip s \<noteq> []
           \<and> list_ex (str_contains s) CLICKBAIT_PHRASES"
proof (cases v)
  case (PStr s)
  with assms show ?thesis
    by (auto simp: validate_title_def split: if_splits)
qed (use assms in \<open>auto simp: validate_title_def split: if_splits\<close>)

lemma validate_title_idem:
  assumes "validate_title v = Inr t"
  shows "validate_title (PStr t) = Inr t"
proof -
  from validate_title_Inr[OF assms] obtain s where
    s: "t = strip s" "strip s \<noteq> []" "list_ex (str_contains s) CLICKBAIT_PHRASES"
    by blast
  have "list_ex (str_contains (strip s)) CLICKBAIT_PHRASES"
    using s(3) by (rule clickbait_strip)
  then show ?thesis
    using s(1,2) by (simp add: validate_title_def strip_idem)
qed

lemma validate_content_Inr: "validate_content v = Inr w \<Longrightarrow> w = v"
  by (auto simp: validate_content_def split: pyval.splits if_splits)

lemma validate_summary_Inr: "validate_summary v = Inr w \<Longrightarrow> w = v"
  by (auto simp: validate_summary_def split: pyval.splits if_splits)

lemma validate_category_Inr: "validate_category v = Inr w \<Longrightarrow> w = v"
  by (auto simp: validate_category_def Let_def split: if_splits)

lemma stored_row_revalidates:
  assumes "store_ok rows" "a \<in> set rows"
  shows "validate_name rows (Some (author_id a)) (PStr (name a)) = Inr (name a)
    \<and> validate_phone_number (phone_number a) = Inr (phone_number a)"
proof -
  have n: "name a \<noteq> []" "strip (name a) = name a"
    and p: "validate_phone_number (phone_number a) = Inr (phone_number a)"
    using assms by (auto simp: store_ok_def list_all_iff)
  have "find (\<lambda>b. name b = name a) rows = Some a"
    using assms by (intro find_unique) (simp add: store_ok_def)
  then have "validate_name rows (Some (author_id a)) (PStr (name a)) = Inr (name a)"
    using n by (simp add: validate_name_Inr_iff)
  with p show ?thesis by simp
qed

text \<open>
  Claim C9. Every validator is idempotent: when it accepts a candidate, it accepts the
  value it returned and returns it unchanged; for the name, on the same rows and for the
  same record. Re-validating the stored name and phone number of any row of a reachable
  state, for that row, raises no error.
\<close>

theorem validators_idempotent:
  "(validate_name rows sid vn = Inr n \<longrightarrow> validate_name rows sid (PStr n) = Inr n)
   \<and> (validate_phone_number vp = Inr wp \<longrightarrow> validate_phone_number wp = Inr wp)
   \<and> (validate_title vt = Inr t \<longrightarrow> validate_title (PStr t) = Inr t)
   \<and> (validate_content vc = Inr wc \<longrightarrow> validate_content wc = Inr wc)
   \<and> (validate_summary vs = Inr ws \<longrightarrow> validate_summary ws = Inr ws)
   \<and> (validate_category vg = Inr wg \<longrightarrow> validate_category wg = Inr wg)
   \<and> (\<forall>a\<in>set (run [] ops).
         validate_name (run [] ops) (Some (author_id a)) (PStr (name a)) = Inr (name a)
         \<and> validate_phone_number (phone_number a) = Inr (phone_number a))"
proof -
  have 1: "validate_name rows sid vn = Inr n \<longrightarrow> validate_name rows sid (PStr n) = Inr n"
    using validate_name_idem by blast
  have 2: "validate_phone_number vp = Inr wp \<longrightarrow> validate_phone_number wp = Inr wp"
    using validate_phone_number_Inr[of vp wp] by auto
  have 3: "validate_title vt = Inr t \<longrightarrow> validate_title (PStr t) = Inr t"
    using validate_title_idem by blast
  have 4: "validate_content vc = Inr wc \<longrightarrow> validate_content wc = Inr wc"
    using validate_content_Inr[of vc wc] by auto
  have 5: "validate_summary vs = Inr ws \<longrightarrow> validate_summary ws = Inr ws"
    using validate_summary_Inr[of vs ws] by auto
  have 6: "validate_category vg = Inr wg \<longrightarrow> validate_category wg = Inr wg"
    using validate_category_Inr[of vg wg] by auto
  have 7: "\<forall>a\<in>set (run [] ops).
         validate_name (run [] ops) (Some (author_id a)) (PStr (name a)) = Inr (name a)
         \<and> validate_phone_number (phone_number a) = Inr (phone_number a)"
    using stored_row_revalidates[OF run_empty_ok] by blast
  show ?thesis
    using 1 2 3 4 5 6 7 by (intro conjI)
qed

text \<open>An instance: one accepted candidate for each validator, and a stored row.\<close>

theorem validators_idempotent_witness:
  "validate_name [] None (PStr ''Cy'') = Inr ''Cy''
   \<and> validate_phone_number (PStr ''1234567890'') = Inr (PStr ''1234567890'')
   \<and> validate_title (PStr ''Top Secret'') = Inr ''Top Secret''
   \<and> validate_content (PStr (replicate 250 CHR ''a'')) = Inr (PStr (replicate 250 CHR ''a''))
   \<and> validate_summary PNone = Inr PNone
   \<and> validate_category (PStr ''Fiction'') = Inr (PStr ''Fiction'')
   \<and> validate_name [\<lparr>author_id = 1, name = ''Ann'', phone_number = PNone\<rparr>] (Some 1) (PStr ''Ann'')
        = Inr ''Ann''"
proof -
  note T = validators_idempotent[where rows = "[]" and sid = None
      and vn = "PStr '' Cy ''" and n = "''Cy''"
      and vp = "PStr ''1234567890''" and wp = "PStr ''1234567890''"
      and vt = "PStr ''  Top Secret  ''" and t = "''Top Secret''"
      and vc = "PStr (replicate 250 CHR ''a'')" and wc = "PStr (replicate 250 CHR ''a'')"
      and vs = PNone and ws = PNone
      and vg = "PStr ''Fiction''" and wg = "PStr ''Fiction''"
      and ops = "[Construct (PStr ''Ann'') PNone]"]
  have p1: "validate_name [] None (PStr '' Cy '') = Inr ''Cy''"
    by (simp add: validate_name_def query_first_by_name_def strip_Cy)
  have p2: "validate_phone_number (PStr ''1234567890'') = Inr (PStr ''1234567890'')"
    by (simp add: validate_phone_number_def isdigit_1234567890)
  have p4: "validate_content (PStr (replicate 250 CHR ''a'')) = Inr (PStr (replicate 250 CHR ''a''))"
    by (simp add: validate_content_def)
  have p5: "validate_summary PNone = Inr PNone"
    by (simp add: validate_summary_def)
  have p6: "validate_category (PStr ''Fiction'') = Inr (PStr ''Fiction'')"
    by (simp add: validate_category_def)
  have 1: "validate_name [] None (PStr ''Cy'') = Inr ''Cy''"
    using T[THEN conjunct1] p1 by (rule mp)
  have 2: "validate_phone_number (PStr ''1234567890'') = Inr (PStr ''1234567890'')"
    using T[THEN conjunct2, THEN conjunct1] p2 by (rule mp)
  have 3: "validate_title (PStr ''Top Secret'') = Inr ''Top Secret''"
    using T[THEN conjunct2, THEN conjunct2, THEN conjunct1] validate_title_examples(4)
    by (rule mp)
  have 4: "validate_content (PStr (replicate 250 CHR ''a'')) = Inr (PStr (replicate 250 CHR ''a''))"
    using T[THEN conjunct2, THEN conjunct2, THEN conjunct2, THEN conjunct1] p4 by (rule mp)
  have 5: "validate_summary PNone = Inr PNone"
    using T[THEN conjunct2, THEN conjunct2, THEN conjunct2, THEN conjunct2, THEN conjunct1] p5
    by (rule mp)
  have 6: "validate_category (PStr ''Fiction'') = Inr (PStr ''Fiction'')"
    using T[THEN conjunct2, THEN conjunct2, THEN conjunct2, THEN conjunct2, THEN conjunct2,
        THEN conjunct1] p6
    by (rule mp)
  have 7: "validate_name [\<lparr>author_id = 1, name = ''Ann'', phone_number = PNone\<rparr>] (Some 1) (PStr ''Ann'')
        = Inr ''Ann''"
    using T[THEN conjunct2, THEN conjunct2, THEN conjunct2, THEN conjunct2, THEN conjunct2,
        THEN conjunct2, unfolded run_Ann]
    by simp
  show ?thesis
    using 1 2 3 4 5 6 7 by (intro conjI)
qed

end
